theory Spec2Isabelle
  imports Main
begin

section \<open>The Observer example (observer.py) as a shallow embedding\<close>

text \<open>
  The Python module keeps all of its data in two places: the class object
  \<open>ConcreteSubject\<close>, whose body binds \<open>_state = None\<close> and \<open>_observers = []\<close>,
  and the attribute dictionaries of the instances. No method ever rebinds
  \<open>_observers\<close> on an instance, so \<open>self._observers\<close> always resolves to the one list
  object bound in the class body; \<open>self._state = ...\<close> on the other hand creates an
  entry in the dictionary of the instance. The record below holds exactly that, plus the
  console and the random source.
\<close>

subsection \<open>Values, errors, objects\<close>

datatype py_error = ValueError | TypeError

datatype observer_class = ConcreteObserverA | ConcreteObserverB

text \<open>
  An observer object: its reference (object identity) and its class. Neither class
  defines \<open>__eq__\<close>, so \<open>==\<close> on observers is identity, which is the equality of
  this datatype.
\<close>

datatype observer = Obs (obs_ref: nat) (obs_class: observer_class)

type_synonym subject_ref = nat

record world =
  cls_observers :: "observer list"
  inst_state :: "subject_ref \<Rightarrow> int option"
  stdout :: "string list"
  entropy :: "nat \<Rightarrow> nat"
  draws :: nat
  calls :: "(observer \<times> subject_ref \<times> int option) list"

text \<open>
  \<open>cls_observers\<close> is the list object bound to \<open>ConcreteSubject._observers\<close>;
  \<open>inst_state s\<close> is the entry \<open>_state\<close> in the dictionary of instance \<open>s\<close>
  (\<open>None\<close> when the instance has no such entry); \<open>stdout\<close> holds the printed
  lines, oldest first; \<open>entropy\<close> and \<open>draws\<close> are the random source and the number
  of values drawn from it. \<open>calls\<close> is instrumentation: every entry into an
  \<open>update\<close> method appends the receiver, the subject passed and the value that
  \<open>subject.state\<close> has at that moment.
\<close>

datatype outcome = Return world | Raise py_error world

fun world_of :: "outcome \<Rightarrow> world" where
  "world_of (Return w) = w"
| "world_of (Raise e w) = w"

fun raised :: "outcome \<Rightarrow> py_error option" where
  "raised (Return w) = None"
| "raised (Raise e w) = Some e"

definition module_loaded :: "(nat \<Rightarrow> nat) \<Rightarrow> world" where
  "module_loaded rnd =
     \<lparr>cls_observers = [], inst_state = (\<lambda>s. None), stdout = [],
      entropy = rnd, draws = 0, calls = []\<rparr>"

definition print :: "string \<Rightarrow> world \<Rightarrow> world" where
  "print line w = w\<lparr>stdout := stdout w @ [line]\<rparr>"

subsection \<open>Library operations the module uses\<close>

text \<open>
  \<open>str(n)\<close> for the f-string of \<open>some_business_logic\<close>; \<open>digit\<close> is only applied
  to numbers below ten.
\<close>

definition digit :: "nat \<Rightarrow> char" where
  "digit d = ''0123456789'' ! d"

fun str_nat :: "nat \<Rightarrow> string" where
  "str_nat n = (if n < 10 then [digit n] else str_nat (n div 10) @ [digit (n mod 10)])"

declare str_nat.simps [simp del]

definition str_int :: "int \<Rightarrow> string" where
  "str_int i = (if i < 0 then CHR ''-'' # str_nat (nat (- i)) else str_nat (nat i))"

text \<open>
  \<open>random.randrange(start, stop)\<close>: \<open>ValueError\<close> on an empty range, otherwise one
  value of \<open>[start, stop)\<close>, chosen by the next raw draw of the random source.
\<close>

definition randrange :: "int \<Rightarrow> int \<Rightarrow> world \<Rightarrow> py_error + (int \<times> world)" where
  "randrange start stop w =
     (if stop \<le> start then Inl ValueError
      else Inr (start + int (entropy w (draws w)) mod (stop - start),
                w\<lparr>draws := Suc (draws w)\<rparr>))"

text \<open>
  \<open>list.remove(x)\<close>: drops the first element equal to \<open>x\<close>; \<open>None\<close> stands for the
  \<open>ValueError\<close> it raises when there is none (the list is then untouched).
\<close>

fun list_remove :: "'a \<Rightarrow> 'a list \<Rightarrow> 'a list option" where
  "list_remove x [] = None"
| "list_remove x (y # ys) =
     (if y = x then Some ys
      else (case list_remove x ys of None \<Rightarrow> None | Some zs \<Rightarrow> Some (y # zs)))"

text \<open>
  Comparisons of an \<open>Optional[int]\<close> with an integer literal: \<open>==\<close> is defined on
  every pair of objects, the orderings raise \<open>TypeError\<close> on \<open>None\<close>.
\<close>

fun py_eq :: "int option \<Rightarrow> int \<Rightarrow> bool" where
  "py_eq None k = False"
| "py_eq (Some v) k = (v = k)"

fun py_lt :: "int option \<Rightarrow> int \<Rightarrow> py_error + bool" where
  "py_lt None k = Inl TypeError"
| "py_lt (Some v) k = Inr (v < k)"

fun py_ge :: "int option \<Rightarrow> int \<Rightarrow> py_error + bool" where
  "py_ge None k = Inl TypeError"
| "py_ge (Some v) k = Inr (v \<ge> k)"

subsection \<open>ConcreteSubject\<close>

definition ConcreteSubject_state :: "int option" where
  "ConcreteSubject_state = None"

text \<open>
  The property \<open>state\<close> returns \<open>self._state\<close>: the entry of the instance when there
  is one, the class attribute otherwise.
\<close>

definition state :: "world \<Rightarrow> subject_ref \<Rightarrow> int option" where
  "state w s = (case inst_state w s of Some v \<Rightarrow> Some v | None \<Rightarrow> ConcreteSubject_state)"

text \<open>\<open>self._observers\<close>: no instance has such an entry, so it is the list of the class.\<close>

definition observers_of :: "world \<Rightarrow> subject_ref \<Rightarrow> observer list" where
  "observers_of w s = cls_observers w"

definition attach :: "world \<Rightarrow> subject_ref \<Rightarrow> observer \<Rightarrow> world" where
  "attach w s ob =
     (let w1 = print ''Subject: Attached an observer.'' w
      in w1\<lparr>cls_observers := observers_of w1 s @ [ob]\<rparr>)"

definition detach :: "world \<Rightarrow> subject_ref \<Rightarrow> observer \<Rightarrow> outcome" where
  "detach w s ob =
     (case list_remove ob (observers_of w s) of
        None \<Rightarrow> Raise ValueError w
      | Some rest \<Rightarrow> Return (w\<lparr>cls_observers := rest\<rparr>))"

subsection \<open>The observers of \<open>main\<close>\<close>

definition react :: "string \<Rightarrow> world \<Rightarrow> world" where
  "react who w = print (who @ '': React to the event'') w"

definition update :: "observer \<Rightarrow> world \<Rightarrow> subject_ref \<Rightarrow> outcome" where
  "update ob w s =
     (let w1 = w\<lparr>calls := calls w @ [(ob, s, state w s)]\<rparr> in
      case obs_class ob of
        ConcreteObserverA \<Rightarrow>
          (case py_lt (state w1 s) 3 of
             Inl e \<Rightarrow> Raise e w1
           | Inr b \<Rightarrow> if b then Return (react ''ConcreteObserverA'' w1) else Return w1)
      | ConcreteObserverB \<Rightarrow>
          (if py_eq (state w1 s) 0 then Return (react ''ConcreteObserverB'' w1)
           else (case py_ge (state w1 s) 2 of
                   Inl e \<Rightarrow> Raise e w1
                 | Inr b \<Rightarrow> if b then Return (react ''ConcreteObserverB'' w1) else Return w1)))"

subsection \<open>Notification and the business logic\<close>

text \<open>
  The \<open>for\<close> loop of \<open>notify\<close>. An \<open>update\<close> that raises ends the loop and the
  exception leaves \<open>notify\<close>. The loop runs over the list as it is when the loop starts;
  no \<open>update\<close> changes it (lemma \<open>update_frame\<close> below).
\<close>

fun notify_loop :: "observer list \<Rightarrow> world \<Rightarrow> subject_ref \<Rightarrow> outcome" where
  "notify_loop [] w s = Return w"
| "notify_loop (ob # obs) w s =
     (case update ob w s of
        Raise e w' \<Rightarrow> Raise e w'
      | Return w' \<Rightarrow> notify_loop obs w' s)"

definition notify :: "world \<Rightarrow> subject_ref \<Rightarrow> outcome" where
  "notify w s =
     (let w1 = print ''Subject: Notifying observers...'' w
      in notify_loop (observers_of w1 s) w1 s)"

definition doing_something :: string where
  "doing_something = CHR 0x0A # ''Subject: I'' @ [CHR 0x27] @ ''m doing something important.''"

definition some_business_logic :: "world \<Rightarrow> subject_ref \<Rightarrow> outcome" where
  "some_business_logic w s =
     (let w1 = print doing_something w in
      case randrange 0 10 w1 of
        Inl e \<Rightarrow> Raise e w1
      | Inr (v, w2) \<Rightarrow>
          (let w3 = w2\<lparr>inst_state := (inst_state w2)(s := Some v)\<rparr>;
               w4 = print (''Subject: My state has just changed to: ''
                             @ (case state w3 s of None \<Rightarrow> ''None'' | Some x \<Rightarrow> str_int x)) w3
           in notify w4 s))"

text \<open>A run of \<open>attach\<close> calls on one subject, in the order of the list.\<close>

fun attach_all :: "world \<Rightarrow> subject_ref \<Rightarrow> observer list \<Rightarrow> world" where
  "attach_all w s [] = w"
| "attach_all w s (ob # obs) = attach_all (attach w s ob) s obs"

text \<open>Lines 113 to 119 of \<open>main\<close>: one subject, observers A and B attached in that order.\<close>

definition observer_a :: observer where
  "observer_a = Obs 0 ConcreteObserverA"

definition observer_b :: observer where
  "observer_b = Obs 1 ConcreteObserverB"

definition main_attached :: "(nat \<Rightarrow> nat) \<Rightarrow> world" where
  "main_attached rnd = attach (attach (module_loaded rnd) 0 observer_a) 0 observer_b"

text \<open>What one call printed, and which \<open>update\<close> calls it made: the tail of the log.\<close>

definition printed_since :: "world \<Rightarrow> world \<Rightarrow> string list" where
  "printed_since w w' = drop (length (stdout w)) (stdout w')"

definition calls_since :: "world \<Rightarrow> world \<Rightarrow> (observer \<times> subject_ref \<times> int option) list" where
  "calls_since w w' = drop (length (calls w)) (calls w')"

section \<open>Basic facts\<close>

lemma state_print [simp]: "state (print l w) s = state w s"
  by (simp add: state_def print_def)

lemma list_remove_remove1:
  "list_remove x xs = (if x \<in> set xs then Some (remove1 x xs) else None)"
  by (induction xs) auto

lemma list_remove_split:
  "x \<in> set xs \<Longrightarrow> \<exists>pre post. xs = pre @ x # post \<and> x \<notin> set pre \<and> list_remove x xs = Some (pre @ post)"
proof (induction xs)
  case Nil
  then show ?case by simp
next
  case (Cons y ys)
  show ?case
  proof (cases "y = x")
    case True
    then have "y # ys = [] @ x # ys \<and> x \<notin> set [] \<and> list_remove x (y # ys) = Some ([] @ ys)"
      by simp
    then show ?thesis by blast
  next
    case False
    with Cons obtain pre post where p: "ys = pre @ x # post" "x \<notin> set pre" "list_remove x ys = Some (pre @ post)"
      by auto
    with False have "y # ys = (y # pre) @ x # post \<and> x \<notin> set (y # pre) \<and> list_remove x (y # ys) = Some ((y # pre) @ post)"
      by simp
    then show ?thesis by blast
  qed
qed

lemma update_calls:
  "calls (world_of (update ob w s)) = calls w @ [(ob, s, state w s)]"
  by (cases "state w s"; cases "obs_class ob")
     (simp_all add: update_def state_def react_def print_def Let_def)

lemma update_frame:
  "cls_observers (world_of (update ob w s)) = cls_observers w \<and>
   inst_state (world_of (update ob w s)) = inst_state w \<and>
   entropy (world_of (update ob w s)) = entropy w \<and>
   draws (world_of (update ob w s)) = draws w"
  by (cases "state w s"; cases "obs_class ob")
     (simp_all add: update_def state_def react_def print_def Let_def)

lemma update_returns:
  "state w s = Some v \<Longrightarrow> \<exists>w'. update ob w s = Return w'"
  by (cases "obs_class ob") (simp_all add: update_def state_def Let_def)

lemma update_raises:
  "state w s = None \<Longrightarrow> \<exists>w'. update ob w s = Raise TypeError w'"
  by (cases "obs_class ob") (simp_all add: update_def state_def Let_def)

lemma state_update: "state (world_of (update ob w s)) t = state w t"
  by (simp add: state_def update_frame)

lemma notify_loop_frame:
  "cls_observers (world_of (notify_loop obs w s)) = cls_observers w \<and>
   inst_state (world_of (notify_loop obs w s)) = inst_state w \<and>
   entropy (world_of (notify_loop obs w s)) = entropy w \<and>
   draws (world_of (notify_loop obs w s)) = draws w"
proof (induction obs arbitrary: w)
  case Nil
  show ?case by simp
next
  case (Cons ob obs)
  show ?case
  proof (cases "update ob w s")
    case (Return w')
    with update_frame [of ob w s] Cons [of w'] show ?thesis by simp
  next
    case (Raise e w')
    with update_frame [of ob w s] show ?thesis by simp
  qed
qed

lemma notify_loop_calls_set:
  "state w s = Some v \<Longrightarrow>
   \<exists>w'. notify_loop obs w s = Return w' \<and>
        calls w' = calls w @ map (\<lambda>ob. (ob, s, Some v)) obs"
proof (induction obs arbitrary: w)
  case Nil
  show ?case by simp
next
  case (Cons ob obs)
  from update_returns [OF Cons.prems, of ob] obtain w1 where u: "update ob w s = Return w1"
    by blast
  from update_calls [of ob w s] u Cons.prems
  have c1: "calls w1 = calls w @ [(ob, s, Some v)]" by simp
  from state_update [of ob w s s] u Cons.prems have "state w1 s = Some v" by simp
  from Cons.IH [OF this] obtain w' where
    "notify_loop obs w1 s = Return w'" "calls w' = calls w1 @ map (\<lambda>ob. (ob, s, Some v)) obs"
    by blast
  with u c1 show ?case by simp
qed

lemma notify_loop_calls_prefix:
  "\<exists>n. calls (world_of (notify_loop obs w s)) =
        calls w @ map (\<lambda>ob. (ob, s, state w s)) (take n obs)"
proof (induction obs arbitrary: w)
  case Nil
  show ?case by simp
next
  case (Cons ob obs)
  show ?case
  proof (cases "update ob w s")
    case (Return w1)
    from update_calls [of ob w s] Return
    have c1: "calls w1 = calls w @ [(ob, s, state w s)]" by simp
    from state_update [of ob w s s] Return have st: "state w1 s = state w s" by simp
    from Cons [of w1] obtain n where
      "calls (world_of (notify_loop obs w1 s)) = calls w1 @ map (\<lambda>ob. (ob, s, state w1 s)) (take n obs)"
      by blast
    with c1 st Return have
      "calls (world_of (notify_loop (ob # obs) w s)) =
         calls w @ map (\<lambda>ob. (ob, s, state w s)) (take (Suc n) (ob # obs))"
      by simp
    then show ?thesis by blast
  next
    case (Raise e w1)
    from update_calls [of ob w s] Raise
    have "calls (world_of (notify_loop (ob # obs) w s)) =
         calls w @ map (\<lambda>ob. (ob, s, state w s)) (take (Suc 0) (ob # obs))"
      by simp
    then show ?thesis by blast
  qed
qed

lemma observers_attach: "observers_of (attach w s ob) t = observers_of w t @ [ob]"
  by (simp add: attach_def observers_of_def print_def Let_def)

lemma observers_attach_all: "observers_of (attach_all w s obs) t = observers_of w t @ obs"
  by (induction obs arbitrary: w) (simp_all add: observers_attach)

lemma state_attach: "state (attach w s ob) t = state w t"
  by (simp add: attach_def state_def print_def Let_def)

lemma state_attach_all: "state (attach_all w s obs) t = state w t"
  by (induction obs arbitrary: w) (simp_all add: state_attach)

lemma notify_calls_set:
  "state w s = Some v \<Longrightarrow>
   \<exists>w'. notify w s = Return w' \<and>
        calls w' = calls w @ map (\<lambda>ob. (ob, s, Some v)) (observers_of w s)"
proof -
  assume st: "state w s = Some v"
  let ?w1 = "print ''Subject: Notifying observers...'' w"
  have "state ?w1 s = Some v" using st by simp
  from notify_loop_calls_set [OF this, of "observers_of ?w1 s"]
  show ?thesis by (simp add: notify_def Let_def print_def observers_of_def)
qed

lemma notify_frame:
  "cls_observers (world_of (notify w s)) = cls_observers w \<and>
   inst_state (world_of (notify w s)) = inst_state w \<and>
   entropy (world_of (notify w s)) = entropy w \<and>
   draws (world_of (notify w s)) = draws w"
  using notify_loop_frame [of "observers_of (print ''Subject: Notifying observers...'' w) s"
      "print ''Subject: Notifying observers...'' w" s]
  by (simp add: notify_def Let_def print_def)

lemma notify_calls_prefix:
  "\<exists>n. calls (world_of (notify w s)) =
        calls w @ map (\<lambda>ob. (ob, s, state w s)) (take n (observers_of w s))"
  using notify_loop_calls_prefix [of "observers_of (print ''Subject: Notifying observers...'' w) s"
      "print ''Subject: Notifying observers...'' w" s]
  by (simp add: notify_def Let_def print_def observers_of_def state_def)

lemma some_business_logic_unfold:
  "some_business_logic w s =
     notify (print (''Subject: My state has just changed to: '' @ str_int (int (entropy w (draws w)) mod 10))
              (print doing_something w
                 \<lparr>draws := Suc (draws w),
                  inst_state := (inst_state w)(s := Some (int (entropy w (draws w)) mod 10))\<rparr>)) s"
  by (simp add: some_business_logic_def randrange_def Let_def print_def state_def)

lemma calls_since_append: "calls w' = calls w @ cs \<Longrightarrow> calls_since w w' = cs"
  by (simp add: calls_since_def)

lemma notify_only_registered:
  "ob \<notin> set (observers_of w s) \<Longrightarrow> ob \<notin> fst ` set (calls_since w (world_of (notify w s)))"
proof -
  assume a: "ob \<notin> set (observers_of w s)"
  from notify_calls_prefix [of w s] obtain n where
    "calls (world_of (notify w s)) = calls w @ map (\<lambda>ob. (ob, s, state w s)) (take n (observers_of w s))"
    by blast
  then have "calls_since w (world_of (notify w s)) = map (\<lambda>ob. (ob, s, state w s)) (take n (observers_of w s))"
    by (rule calls_since_append)
  then have "fst ` set (calls_since w (world_of (notify w s))) = set (take n (observers_of w s))"
    by (simp add: image_image)
  with a show ?thesis using set_take_subset [of n "observers_of w s"] by blast
qed

lemmas world_simps = main_attached_def module_loaded_def attach_def observers_of_def print_def
  observer_a_def observer_b_def Let_def

lemma update_A_printed:
  "printed_since w (world_of (update (Obs r ConcreteObserverA) w s)) =
     (case state w s of None \<Rightarrow> []
      | Some v \<Rightarrow> if v < 3 then [''ConcreteObserverA: React to the event''] else [])"
  by (cases "state w s")
     (simp_all add: update_def state_def react_def print_def printed_since_def Let_def)

lemma update_B_printed:
  "printed_since w (world_of (update (Obs r ConcreteObserverB) w s)) =
     (case state w s of None \<Rightarrow> []
      | Some v \<Rightarrow> if v = 0 \<or> v \<ge> 2 then [''ConcreteObserverB: React to the event''] else [])"
  by (cases "state w s")
     (simp_all add: update_def state_def react_def print_def printed_since_def Let_def)

lemmas run_simps = world_simps some_business_logic_unfold notify_def update_def state_def
  detach_def calls_since_def printed_since_def react_def str_int_def str_nat.simps digit_def

lemma first_occurrence_unique:
  assumes "xs = pre @ x # post" "x \<notin> set pre"
  shows "pre = takeWhile (\<lambda>y. y \<noteq> x) xs \<and> post = tl (dropWhile (\<lambda>y. y \<noteq> x) xs)"
proof -
  from assms(2) have p: "\<And>y. y \<in> set pre \<Longrightarrow> y \<noteq> x" by blast
  have "takeWhile (\<lambda>y. y \<noteq> x) (pre @ x # post) = pre"
    using p by (simp add: takeWhile_append2)
  moreover have "dropWhile (\<lambda>y. y \<noteq> x) (pre @ x # post) = x # post"
    using p by (simp add: dropWhile_append2)
  ultimately show ?thesis using assms(1) by simp
qed

section \<open>The claims\<close>

text \<open>
  Claim C1: for every subject and every run of \<open>attach\<close> calls, a following \<open>notify()\<close>
  invokes \<open>update\<close> once per registry entry, in the order of the \<open>attach\<close> calls.
  On a subject that has not run \<open>some_business_logic\<close> yet the loop does not get that far:
  with A and B attached, \<open>update\<close> of A raises \<open>TypeError\<close> on the absent state, the
  exception leaves \<open>notify\<close>, and \<open>update\<close> of B is never invoked. (When the state is set
  the order holds: lemma \<open>notify_calls_set\<close>.)
\<close>

theorem notify_before_first_mutation_stops_early:
  "observers_of (attach_all (module_loaded rnd) 0 [observer_a, observer_b]) 0 = [observer_a, observer_b] \<and>
   raised (notify (attach_all (module_loaded rnd) 0 [observer_a, observer_b]) 0) = Some TypeError \<and>
   calls (world_of (notify (attach_all (module_loaded rnd) 0 [observer_a, observer_b]) 0))
     = [(observer_a, 0, None)]"
  by (simp add: world_simps notify_def update_def state_def ConcreteSubject_state_def)

text \<open>
  Claim C2: in the notify cycle of one \<open>some_business_logic\<close> call every attached
  observer's \<open>update\<close> sees the same state value, the one just assigned. The call
  returns, the value \<open>v\<close> is the one drawn and stored, and the \<open>update\<close> calls of the
  cycle are one per registry entry, in order, each seeing \<open>Some v\<close>.
\<close>

theorem business_logic_cycle_single_snapshot:
  "\<exists>v w'. some_business_logic w s = Return w' \<and>
          v = int (entropy w (draws w)) mod 10 \<and>
          state w' s = Some v \<and>
          calls_since w w' = map (\<lambda>ob. (ob, s, Some v)) (observers_of w s)"
proof -
  let ?v = "int (entropy w (draws w)) mod 10"
  let ?w4 = "print (''Subject: My state has just changed to: '' @ str_int ?v)
              (print doing_something w
                 \<lparr>draws := Suc (draws w), inst_state := (inst_state w)(s := Some ?v)\<rparr>)"
  have st: "state ?w4 s = Some ?v" by (simp add: state_def print_def)
  from notify_calls_set [OF st] obtain w' where
    n: "notify ?w4 s = Return w'"
    and c: "calls w' = calls ?w4 @ map (\<lambda>ob. (ob, s, Some ?v)) (observers_of ?w4 s)"
    by blast
  from notify_frame [of ?w4 s] n have "inst_state w' = inst_state ?w4" by simp
  then have st': "state w' s = Some ?v" by (simp add: state_def print_def)
  have "calls_since w w' = map (\<lambda>ob. (ob, s, Some ?v)) (observers_of w s)"
    using c by (simp add: calls_since_def print_def observers_of_def)
  with n st' show ?thesis by (simp add: some_business_logic_unfold)
qed

theorem business_logic_cycle_single_snapshot_witness:
  "\<exists>w'. some_business_logic (main_attached (\<lambda>n. 1)) 0 = Return w' \<and>
        state w' 0 = Some 1 \<and>
        calls_since (main_attached (\<lambda>n. 1)) w' = [(observer_a, 0, Some 1), (observer_b, 0, Some 1)]"
  using business_logic_cycle_single_snapshot [of "main_attached (\<lambda>n. 1)" 0] by (simp add: world_simps)

text \<open>
  Claim C3: the registry belongs to one subject instance; \<open>attach\<close> on one instance leaves
  the registry of every other instance as it was. In the code the list is the one bound in
  the class body: an \<open>attach\<close> through instance 0 shows in the registry read through
  instance 1, and \<open>notify\<close> on instance 1 invokes the observer attached to instance 0.
\<close>

theorem attach_visible_through_other_instance:
  "observers_of (module_loaded rnd) 1 = [] \<and>
   observers_of (attach (module_loaded rnd) 0 observer_a) 1 = [observer_a] \<and>
   calls (world_of (notify (attach (module_loaded rnd) 0 observer_a) 1)) = [(observer_a, 1, None)]"
  by (simp add: world_simps notify_def update_def state_def ConcreteSubject_state_def)

text \<open>
  Claim C4 as stated fails when the observer was attached twice: \<open>detach\<close> removes one
  occurrence, the other stays, and the next \<open>notify\<close> invokes \<open>update\<close> on the observer.
\<close>

theorem detach_duplicate_still_notified:
  "observer_a \<in> set (observers_of (world_of (some_business_logic
       (attach_all (module_loaded (\<lambda>n. 1)) 0 [observer_a, observer_a]) 0)) 0) \<and>
   observers_of (world_of (detach (world_of (some_business_logic
       (attach_all (module_loaded (\<lambda>n. 1)) 0 [observer_a, observer_a]) 0)) 0 observer_a)) 0
     = [observer_a] \<and>
   calls_since
     (world_of (detach (world_of (some_business_logic
       (attach_all (module_loaded (\<lambda>n. 1)) 0 [observer_a, observer_a]) 0)) 0 observer_a))
     (world_of (notify (world_of (detach (world_of (some_business_logic
       (attach_all (module_loaded (\<lambda>n. 1)) 0 [observer_a, observer_a]) 0)) 0 observer_a)) 0))
     = [(observer_a, 0, Some 1)]"
  by (simp add: world_simps some_business_logic_unfold notify_def update_def state_def
      detach_def calls_since_def react_def)

text \<open>
  Claim C4, amended: when the registry contains \<open>o\<close>, \<open>detach(o)\<close> returns and removes
  exactly one occurrence of \<open>o\<close>, the earliest one, leaving the rest of the registry and the
  state as they were; if no later occurrence of \<open>o\<close> remains, every following \<open>notify\<close> on
  that registry invokes \<open>update\<close> on \<open>o\<close> never.
\<close>

theorem detach_removes_earliest_occurrence:
  assumes "ob \<in> set (observers_of w s)"
  shows "\<exists>pre post w'. observers_of w s = pre @ ob # post \<and> ob \<notin> set pre \<and>
           detach w s ob = Return w' \<and> observers_of w' s = pre @ post \<and>
           state w' = state w \<and>
           (ob \<notin> set post \<longrightarrow>
              (\<forall>w''. observers_of w'' s = observers_of w' s \<longrightarrow>
                 ob \<notin> fst ` set (calls_since w'' (world_of (notify w'' s)))))"
proof -
  from list_remove_split [OF assms] obtain pre post where
    p: "observers_of w s = pre @ ob # post" "ob \<notin> set pre"
       "list_remove ob (observers_of w s) = Some (pre @ post)"
    by blast
  let ?w' = "w\<lparr>cls_observers := pre @ post\<rparr>"
  from p have d: "detach w s ob = Return ?w'" by (simp add: detach_def)
  have r: "observers_of ?w' s = pre @ post" by (simp add: observers_of_def)
  have st: "state ?w' = state w" by (rule ext) (simp add: state_def)
  have n: "ob \<notin> set post \<longrightarrow>
              (\<forall>w''. observers_of w'' s = observers_of ?w' s \<longrightarrow>
                 ob \<notin> fst ` set (calls_since w'' (world_of (notify w'' s))))"
  proof (intro impI allI)
    fix w''
    assume "ob \<notin> set post" "observers_of w'' s = observers_of ?w' s"
    with p(2) r have "ob \<notin> set (observers_of w'' s)" by simp
    then show "ob \<notin> fst ` set (calls_since w'' (world_of (notify w'' s)))"
      by (rule notify_only_registered)
  qed
  from p(1,2) d r st n show ?thesis by blast
qed

theorem detach_removes_earliest_occurrence_witness:
  "observer_a \<in> set (observers_of (world_of (some_business_logic
       (attach_all (module_loaded (\<lambda>n. 1)) 0 [observer_b, observer_a, observer_b, observer_a]) 0)) 0) \<and>
   (\<exists>w'. detach (world_of (some_business_logic
             (attach_all (module_loaded (\<lambda>n. 1)) 0 [observer_b, observer_a, observer_b, observer_a]) 0))
             0 observer_a = Return w' \<and>
         observers_of w' 0 = [observer_b, observer_b, observer_a] \<and>
         state w' 0 = Some 1) \<and>
   observer_a \<in> set (observers_of (world_of (some_business_logic
       (attach_all (module_loaded (\<lambda>n. 1)) 0 [observer_b, observer_a, observer_b]) 0)) 0) \<and>
   (\<exists>w'. detach (world_of (some_business_logic
             (attach_all (module_loaded (\<lambda>n. 1)) 0 [observer_b, observer_a, observer_b]) 0))
             0 observer_a = Return w' \<and>
         observers_of w' 0 = [observer_b, observer_b] \<and>
         state w' 0 = Some 1 \<and>
         raised (notify w' 0) = None \<and>
         length (calls_since w' (world_of (notify w' 0))) = 2 \<and>
         observer_a \<notin> fst ` set (calls_since w' (world_of (notify w' 0))))"
proof -
  let ?W1 = "world_of (some_business_logic
       (attach_all (module_loaded (\<lambda>n. 1)) 0 [observer_b, observer_a, observer_b, observer_a]) 0)"
  let ?W2 = "world_of (some_business_logic
       (attach_all (module_loaded (\<lambda>n. 1)) 0 [observer_b, observer_a, observer_b]) 0)"
  have ne: "observer_b \<noteq> observer_a" by (simp add: observer_a_def observer_b_def)
  have reg1: "observers_of ?W1 0 = [observer_b, observer_a, observer_b, observer_a]"
    using notify_frame by (simp add: some_business_logic_unfold observers_of_def print_def attach_def Let_def module_loaded_def)
  have reg2: "observers_of ?W2 0 = [observer_b, observer_a, observer_b]"
    using notify_frame by (simp add: some_business_logic_unfold observers_of_def print_def attach_def Let_def module_loaded_def)
  have st1: "state ?W1 0 = Some 1"
    using notify_frame by (simp add: some_business_logic_unfold state_def print_def attach_def Let_def module_loaded_def)
  have st2: "state ?W2 0 = Some 1"
    using notify_frame by (simp add: some_business_logic_unfold state_def print_def attach_def Let_def module_loaded_def)
  have h1: "observer_a \<in> set (observers_of ?W1 0)" by (subst reg1) simp
  have h2: "observer_a \<in> set (observers_of ?W2 0)" by (subst reg2) simp
  have part1: "\<exists>w'. detach ?W1 0 observer_a = Return w' \<and>
         observers_of w' 0 = [observer_b, observer_b, observer_a] \<and> state w' 0 = Some 1"
  proof -
    from detach_removes_earliest_occurrence [OF h1] obtain pre post w' where
      a: "observers_of ?W1 0 = pre @ observer_a # post" "observer_a \<notin> set pre"
         "detach ?W1 0 observer_a = Return w'" "observers_of w' 0 = pre @ post"
         "state w' = state ?W1"
      by blast
    from first_occurrence_unique [OF a(1,2)] reg1 ne
    have "pre = [observer_b] \<and> post = [observer_b, observer_a]" by simp
    with a(3,4,5) st1 show ?thesis by simp
  qed
  have part2: "\<exists>w'. detach ?W2 0 observer_a = Return w' \<and>
         observers_of w' 0 = [observer_b, observer_b] \<and> state w' 0 = Some 1 \<and>
         raised (notify w' 0) = None \<and>
         length (calls_since w' (world_of (notify w' 0))) = 2 \<and>
         observer_a \<notin> fst ` set (calls_since w' (world_of (notify w' 0)))"
  proof -
    from detach_removes_earliest_occurrence [OF h2] obtain pre post w' where
      a: "observers_of ?W2 0 = pre @ observer_a # post" "observer_a \<notin> set pre"
         "detach ?W2 0 observer_a = Return w'" "observers_of w' 0 = pre @ post"
         "state w' = state ?W2"
      and b: "observer_a \<notin> set post \<longrightarrow>
              (\<forall>w''. observers_of w'' 0 = observers_of w' 0 \<longrightarrow>
                 observer_a \<notin> fst ` set (calls_since w'' (world_of (notify w'' 0))))"
      by blast
    from first_occurrence_unique [OF a(1,2)] reg2 ne
    have pp: "pre = [observer_b] \<and> post = [observer_b]" by simp
    with ne have "observer_a \<notin> set post" by simp
    with b have no: "observer_a \<notin> fst ` set (calls_since w' (world_of (notify w' 0)))" by blast
    from a(5) st2 have st: "state w' 0 = Some 1" by simp
    from notify_calls_set [OF st] obtain w'' where
      n: "notify w' 0 = Return w''"
         "calls w'' = calls w' @ map (\<lambda>ob. (ob, 0, Some 1)) (observers_of w' 0)"
      by blast
    from n(2) have "calls_since w' w'' = map (\<lambda>ob. (ob, 0, Some 1)) (observers_of w' 0)"
      by (rule calls_since_append)
    with n(1) a(4) pp have "raised (notify w' 0) = None \<and>
         length (calls_since w' (world_of (notify w' 0))) = 2" by simp
    with a(3,4) pp st no show ?thesis by simp
  qed
  from h1 part1 h2 part2 show ?thesis by blast
qed

text \<open>
  Claim C5: \<open>detach(o)\<close> on a registry without \<open>o\<close> is a no-op or raises a not-found
  error, and when it raises the registry and the state are unchanged. The code raises
  \<open>ValueError\<close> (from \<open>list.remove\<close>) and the whole world is as before the call.
\<close>

theorem detach_absent_raises_unchanged:
  "ob \<notin> set (observers_of w s) \<Longrightarrow> detach w s ob = Raise ValueError w"
  by (simp add: detach_def list_remove_remove1)

theorem detach_absent_raises_unchanged_witness:
  "observer_b \<notin> set (observers_of (attach (module_loaded (\<lambda>n. 0)) 0 observer_a) 0) \<and>
   detach (attach (module_loaded (\<lambda>n. 0)) 0 observer_a) 0 observer_b
     = Raise ValueError (attach (module_loaded (\<lambda>n. 0)) 0 observer_a)"
proof -
  have h: "observer_b \<notin> set (observers_of (attach (module_loaded (\<lambda>n. 0)) 0 observer_a) 0)"
    by (simp add: world_simps)
  from h detach_absent_raises_unchanged [OF h] show ?thesis by simp
qed

text \<open>
  Claim C6: \<open>update\<close> of A prints its reaction exactly when the state is below 3, and
  \<open>update\<close> of B exactly when the state is 0 or at least 2. With A and B attached, a
  mutation that draws 1 makes A react and B not, one that draws 0 makes both react, one
  that draws 5 makes only B react; after \<open>detach\<close> of A a mutation that draws 2 makes
  only B react and \<open>update\<close> of A is not invoked.
\<close>

theorem observer_reaction_predicates:
  "(printed_since w (world_of (update (Obs r ConcreteObserverA) w s)) \<noteq> [])
     = (\<exists>v. state w s = Some v \<and> v < 3) \<and>
   (printed_since w (world_of (update (Obs r ConcreteObserverB) w s)) \<noteq> [])
     = (\<exists>v. state w s = Some v \<and> (v = 0 \<or> v \<ge> 2)) \<and>
   printed_since (main_attached (\<lambda>n. 1)) (world_of (some_business_logic (main_attached (\<lambda>n. 1)) 0))
     = [doing_something, ''Subject: My state has just changed to: 1'',
        ''Subject: Notifying observers...'', ''ConcreteObserverA: React to the event''] \<and>
   printed_since (main_attached (\<lambda>n. 0)) (world_of (some_business_logic (main_attached (\<lambda>n. 0)) 0))
     = [doing_something, ''Subject: My state has just changed to: 0'',
        ''Subject: Notifying observers...'', ''ConcreteObserverA: React to the event'',
        ''ConcreteObserverB: React to the event''] \<and>
   printed_since (main_attached (\<lambda>n. 5)) (world_of (some_business_logic (main_attached (\<lambda>n. 5)) 0))
     = [doing_something, ''Subject: My state has just changed to: 5'',
        ''Subject: Notifying observers...'', ''ConcreteObserverB: React to the event''] \<and>
   printed_since (world_of (detach (main_attached (\<lambda>n. 2)) 0 observer_a))
       (world_of (some_business_logic (world_of (detach (main_attached (\<lambda>n. 2)) 0 observer_a)) 0))
     = [doing_something, ''Subject: My state has just changed to: 2'',
        ''Subject: Notifying observers...'', ''ConcreteObserverB: React to the event''] \<and>
   calls_since (world_of (detach (main_attached (\<lambda>n. 2)) 0 observer_a))
       (world_of (some_business_logic (world_of (detach (main_attached (\<lambda>n. 2)) 0 observer_a)) 0))
     = [(observer_b, 0, Some 2)]"
proof -
  have a: "(printed_since w (world_of (update (Obs r ConcreteObserverA) w s)) \<noteq> [])
     = (\<exists>v. state w s = Some v \<and> v < 3)"
    by (cases "state w s") (simp_all add: update_A_printed)
  have b: "(printed_since w (world_of (update (Obs r ConcreteObserverB) w s)) \<noteq> [])
     = (\<exists>v. state w s = Some v \<and> (v = 0 \<or> v \<ge> 2))"
    by (cases "state w s") (simp_all add: update_B_printed)
  have s1: "printed_since (main_attached (\<lambda>n. 1)) (world_of (some_business_logic (main_attached (\<lambda>n. 1)) 0))
     = [doing_something, ''Subject: My state has just changed to: 1'',
        ''Subject: Notifying observers...'', ''ConcreteObserverA: React to the event'']"
    by (simp add: run_simps)
  have s2: "printed_since (main_attached (\<lambda>n. 0)) (world_of (some_business_logic (main_attached (\<lambda>n. 0)) 0))
     = [doing_something, ''Subject: My state has just changed to: 0'',
        ''Subject: Notifying observers...'', ''ConcreteObserverA: React to the event'',
        ''ConcreteObserverB: React to the event'']"
    by (simp add: run_simps)
  have s3: "printed_since (main_attached (\<lambda>n. 5)) (world_of (some_business_logic (main_attached (\<lambda>n. 5)) 0))
     = [doing_something, ''Subject: My state has just changed to: 5'',
        ''Subject: Notifying observers...'', ''ConcreteObserverB: React to the event'']"
    by (simp add: run_simps)
  have s4: "printed_since (world_of (detach (main_attached (\<lambda>n. 2)) 0 observer_a))
       (world_of (some_business_logic (world_of (detach (main_attached (\<lambda>n. 2)) 0 observer_a)) 0))
     = [doing_something, ''Subject: My state has just changed to: 2'',
        ''Subject: Notifying observers...'', ''ConcreteObserverB: React to the event'']"
    by (simp add: run_simps)
  have s5: "calls_since (world_of (detach (main_attached (\<lambda>n. 2)) 0 observer_a))
       (world_of (some_business_logic (world_of (detach (main_attached (\<lambda>n. 2)) 0 observer_a)) 0))
     = [(observer_b, 0, Some 2)]"
    by (simp add: run_simps)
  from a b s1 s2 s3 s4 s5 show ?thesis by (intro conjI)
qed

theorem observer_reaction_predicates_witness:
  "printed_since (world_of (some_business_logic (main_attached (\<lambda>n. 7)) 0))
     (world_of (update (Obs 0 ConcreteObserverA) (world_of (some_business_logic (main_attached (\<lambda>n. 7)) 0)) 0))
     = [] \<and>
   printed_since (world_of (some_business_logic (main_attached (\<lambda>n. 7)) 0))
     (world_of (update (Obs 0 ConcreteObserverB) (world_of (some_business_logic (main_attached (\<lambda>n. 7)) 0)) 0))
     \<noteq> []"
  using observer_reaction_predicates [of "world_of (some_business_logic (main_attached (\<lambda>n. 7)) 0)" 0 0]
  by (simp add: run_simps)

text \<open>
  Claim C7: the state value produced by \<open>some_business_logic\<close> is an integer of
  \<open>[0, 10)\<close>, drawn from the random source and assigned before \<open>notify()\<close> is called:
  the call is \<open>notify\<close> on a world \<open>w1\<close> in which one value has been drawn, the state of
  the subject is already that value and no \<open>update\<close> has been invoked yet.
\<close>

theorem business_logic_state_in_range:
  "\<exists>v w1. 0 \<le> v \<and> v < 10 \<and> v = int (entropy w (draws w)) mod 10 \<and>
          draws w1 = Suc (draws w) \<and>
          inst_state w1 = (inst_state w)(s := Some v) \<and> state w1 s = Some v \<and>
          calls w1 = calls w \<and>
          some_business_logic w s = notify w1 s \<and>
          state (world_of (some_business_logic w s)) s = Some v"
proof -
  let ?v = "int (entropy w (draws w)) mod 10"
  let ?w4 = "print (''Subject: My state has just changed to: '' @ str_int ?v)
              (print doing_something w
                 \<lparr>draws := Suc (draws w), inst_state := (inst_state w)(s := Some ?v)\<rparr>)"
  have r: "0 \<le> ?v \<and> ?v < 10" by simp
  have a: "draws ?w4 = Suc (draws w) \<and> inst_state ?w4 = (inst_state w)(s := Some ?v) \<and>
           state ?w4 s = Some ?v \<and> calls ?w4 = calls w"
    by (simp add: state_def print_def)
  have b: "some_business_logic w s = notify ?w4 s" by (rule some_business_logic_unfold)
  from notify_frame [of ?w4 s] have "inst_state (world_of (notify ?w4 s)) = inst_state ?w4" by simp
  then have c: "state (world_of (some_business_logic w s)) s = Some ?v"
    using b by (simp add: state_def print_def)
  from r a b c show ?thesis by blast
qed

theorem business_logic_state_in_range_witness:
  "state (world_of (some_business_logic (main_attached (\<lambda>n. 25)) 0)) 0 = Some 5"
  using business_logic_state_in_range [of "main_attached (\<lambda>n. 25)" 0] by (elim exE conjE) (simp add: world_simps)

text \<open>
  Claim C8: \<open>some_business_logic\<close> is the only operation that changes the state of a
  subject. \<open>attach\<close>, \<open>detach\<close>, \<open>notify\<close> (with the \<open>update\<close> calls it makes) leave the
  state of every subject as it was, whether they return or raise; the accessor is a read of
  the world that yields the stored value, which is absent on a subject that has only been
  attached to; \<open>some_business_logic\<close> sets it to the value drawn.
\<close>

theorem state_changed_only_by_business_logic:
  "state (attach w s ob) t = state w t \<and>
   state (world_of (detach w s ob)) t = state w t \<and>
   state (world_of (notify w s)) t = state w t \<and>
   state (world_of (update ob w s)) t = state w t \<and>
   state w t = inst_state w t \<and>
   state (module_loaded rnd) t = None \<and>
   state (attach_all (module_loaded rnd) s obs) t = None \<and>
   state (world_of (some_business_logic w s)) s = Some (int (entropy w (draws w)) mod 10)"
proof -
  have d: "state (world_of (detach w s ob)) t = state w t"
    by (cases "list_remove ob (observers_of w s)") (simp_all add: detach_def state_def)
  have n: "state (world_of (notify w s)) t = state w t"
    using notify_frame [of w s] by (simp add: state_def)
  have i: "state w t = inst_state w t"
    by (cases "inst_state w t") (simp_all add: state_def ConcreteSubject_state_def)
  have m: "state (module_loaded rnd) t = None"
    by (simp add: state_def ConcreteSubject_state_def module_loaded_def)
  have b: "state (world_of (some_business_logic w s)) s = Some (int (entropy w (draws w)) mod 10)"
    using notify_frame [of _ s] by (simp add: some_business_logic_unfold state_def print_def)
  from d n i m b show ?thesis
    by (simp add: state_attach state_attach_all state_update)
qed

theorem state_changed_only_by_business_logic_witness:
  "state (world_of (notify (world_of (some_business_logic (main_attached (\<lambda>n. 4)) 0)) 0)) 0 = Some 4"
  using state_changed_only_by_business_logic [of "world_of (some_business_logic (main_attached (\<lambda>n. 4)) 0)" 0 observer_a 0 "\<lambda>n. 4" "[]"]
    state_changed_only_by_business_logic [of "main_attached (\<lambda>n. 4)" 0 observer_a 0 "\<lambda>n. 4" "[]"]
  by (simp add: world_simps)

text \<open>
  Claim C9: on a subject whose state is absent, \<open>update\<close> of A and of B completes without
  error. In the code both raise \<open>TypeError\<close>: A at \<open>None < 3\<close>, B at \<open>None >= 2\<close>
  after \<open>None == 0\<close> has been false.
\<close>

theorem update_absent_state_raises:
  "state (module_loaded rnd) s = None \<and>
   raised (update (Obs r ConcreteObserverA) (module_loaded rnd) s) = Some TypeError \<and>
   raised (update (Obs r ConcreteObserverB) (module_loaded rnd) s) = Some TypeError"
  by (simp add: world_simps update_def state_def ConcreteSubject_state_def)

text \<open>
  Claim C10: \<open>attach(o)\<close> followed at once by \<open>detach(o)\<close> returns, leaves the state as it
  was, and gives back the registry of before the \<open>attach\<close> when \<open>o\<close> was not in it; when
  \<open>o\<close> was in it the earliest occurrence is the one removed and \<open>o\<close> ends up last, which
  for the registry \<open>[a, b]\<close> and \<open>o = a\<close> is \<open>[b, a]\<close>, not the registry of before.
\<close>

theorem attach_detach_round_trip:
  "(\<exists>w'. detach (attach w s ob) s ob = Return w' \<and>
         observers_of w' s =
           (if ob \<in> set (observers_of w s) then remove1 ob (observers_of w s) @ [ob]
            else observers_of w s) \<and>
         state w' = state w) \<and>
   observers_of (main_attached rnd) 0 = [observer_a, observer_b] \<and>
   observers_of (world_of (detach (attach (main_attached rnd) 0 observer_a) 0 observer_a)) 0
     = [observer_b, observer_a]"
proof -
  have "list_remove ob (observers_of (attach w s ob) s) =
          Some (if ob \<in> set (observers_of w s) then remove1 ob (observers_of w s) @ [ob]
                else observers_of w s)"
    by (simp add: observers_attach list_remove_remove1 remove1_append)
  then have a: "\<exists>w'. detach (attach w s ob) s ob = Return w' \<and>
         observers_of w' s =
           (if ob \<in> set (observers_of w s) then remove1 ob (observers_of w s) @ [ob]
            else observers_of w s) \<and> state w' = state w"
    by (simp add: detach_def observers_of_def state_def attach_def print_def Let_def fun_eq_iff)
  have b: "observers_of (main_attached rnd) 0 = [observer_a, observer_b]"
    by (simp add: world_simps)
  have c: "observers_of (world_of (detach (attach (main_attached rnd) 0 observer_a) 0 observer_a)) 0
     = [observer_b, observer_a]"
    by (simp add: world_simps detach_def)
  from a b c show ?thesis by blast
qed

theorem attach_detach_round_trip_witness:
  "observer_b \<notin> set (observers_of (attach (module_loaded (\<lambda>n. 0)) 0 observer_a) 0) \<and>
   (\<exists>w'. detach (attach (attach (module_loaded (\<lambda>n. 0)) 0 observer_a) 0 observer_b) 0 observer_b = Return w' \<and>
         observers_of w' 0 = observers_of (attach (module_loaded (\<lambda>n. 0)) 0 observer_a) 0)"
proof -
  have h: "observer_b \<notin> set (observers_of (attach (module_loaded (\<lambda>n. 0)) 0 observer_a) 0)"
    by (simp add: world_simps)
  from attach_detach_round_trip [of "attach (module_loaded (\<lambda>n. 0)) 0 observer_a" 0 observer_b "\<lambda>n. 0"] h
  show ?thesis by auto
qed

end
